theory Spec2Isabelle
  imports Complex_Main
begin

section \<open>Text\<close>

text \<open>
  The chatbot of \<^verbatim>\<open>main.py\<close> reads one Python \<^verbatim>\<open>str\<close> per turn and answers with one.
  The user's message is the only text the program inspects (\<^verbatim>\<open>lower\<close>, \<^verbatim>\<open>strip\<close>,
  \<^verbatim>\<open>in\<close>, \<^verbatim>\<open>re.search\<close>); it is a \<^typ>\<open>string\<close> whose characters are the code points
  0 to 255, on which the three operations are written out exactly. Every other text (the
  answers with their pictographs, what the services return, exception messages) is only
  concatenated and passed on; it is a list of code points.
\<close>

type_synonym py_str = "nat list"

definition of_str :: "string \<Rightarrow> py_str" where
  "of_str s = map of_char s"

text \<open>\<^verbatim>\<open>str.lower\<close> on one character below 256: A to Z, and U+00C0 to U+00DE but U+00D7.\<close>

definition lower_char :: "char \<Rightarrow> char" where
  "lower_char c =
     (let n = (of_char c :: nat)
      in if (65 \<le> n \<and> n \<le> 90) \<or> (192 \<le> n \<and> n \<le> 222 \<and> n \<noteq> 215)
         then char_of (n + 32) else c)"

definition lower :: "string \<Rightarrow> string" where
  "lower s = map lower_char s"

text \<open>
  Python's white space below 256 (\<^verbatim>\<open>str.isspace\<close>, what \<^verbatim>\<open>strip()\<close> removes and what
  \<^verbatim>\<open>\s\<close> matches in a \<^verbatim>\<open>str\<close> pattern): 9 to 13, 28 to 32, U+0085 and U+00A0.
\<close>

definition isspace :: "char \<Rightarrow> bool" where
  "isspace c =
     (let n = (of_char c :: nat)
      in (9 \<le> n \<and> n \<le> 13) \<or> (28 \<le> n \<and> n \<le> 32) \<or> n = 133 \<or> n = 160)"

definition strip :: "string \<Rightarrow> string" where
  "strip s = rev (dropWhile isspace (rev (dropWhile isspace s)))"

text \<open>\<^verbatim>\<open>sub in s\<close>: \<open>sub\<close> occurs in \<open>s\<close> as a contiguous run.\<close>

fun starts_with :: "string \<Rightarrow> string \<Rightarrow> bool" where
  "starts_with [] s = True"
| "starts_with (a # sub) [] = False"
| "starts_with (a # sub) (c # s) = (a = c \<and> starts_with sub s)"

fun py_in :: "string \<Rightarrow> string \<Rightarrow> bool" where
  "py_in sub [] = (sub = [])"
| "py_in sub (c # s) = (starts_with sub (c # s) \<or> py_in sub s)"

text \<open>
  \<^verbatim>\<open>re.search(r'in\s(.+)', message, re.IGNORECASE)\<close>: the leftmost place where an
  \<open>i\<close> or \<open>I\<close>, an \<open>n\<close> or \<open>N\<close>, one white-space character and at least one character
  other than the line feed follow each other; group 1 is greedy and runs to the next
  line feed or to the end. The result is \<^verbatim>\<open>None\<close> or group 1.
\<close>

definition is_i :: "char \<Rightarrow> bool" where
  "is_i c = (c = CHR ''i'' \<or> c = CHR ''I'')"

definition is_n :: "char \<Rightarrow> bool" where
  "is_n c = (c = CHR ''n'' \<or> c = CHR ''N'')"

definition line_feed :: char where
  "line_feed = CHR 0x0A"

fun location_match :: "string \<Rightarrow> string option" where
  "location_match (a # b # c # d # s) =
     (if is_i a \<and> is_n b \<and> isspace c \<and> d \<noteq> line_feed
      then Some (takeWhile (\<lambda>x. x \<noteq> line_feed) (d # s))
      else location_match (b # c # d # s))"
| "location_match s = None"

text \<open>\<^verbatim>\<open>str(i)\<close> of a natural number, for the numbering of \<^verbatim>\<open>enumerate\<close>.\<close>

fun str_nat :: "nat \<Rightarrow> py_str" where
  "str_nat n = (if n < 10 then [48 + n] else str_nat (n div 10) @ [48 + n mod 10])"

section \<open>Data\<close>

text \<open>
  An organization is the dictionary \<^verbatim>\<open>find_recipients\<close> builds: always the five keys
  \<^verbatim>\<open>name\<close>, \<^verbatim>\<open>address\<close>, \<^verbatim>\<open>phone\<close>, \<^verbatim>\<open>website\<close>, \<^verbatim>\<open>rating\<close>. The rating is the number of the
  Places service or the string \<^verbatim>\<open>'N/A'\<close>; the program never computes with it.
\<close>

datatype rating = Rating rat | RatingNA

record organization =
  org_name :: py_str
  org_address :: py_str
  org_phone :: py_str
  org_website :: py_str
  org_rating :: rating

text \<open>
  The dictionaries the two tools serialise with \<^verbatim>\<open>json.dumps\<close> and the chatbot reads back
  with \<^verbatim>\<open>json.loads\<close>; a key that is absent is \<open>None\<close>.
\<close>

record tool_result =
  recipients :: "organization list option"
  error :: "py_str option"
  api_error :: "bool option"
  message :: "py_str option"
  success :: "bool option"

definition no_keys :: tool_result where
  "no_keys = \<lparr>recipients = None, error = None, api_error = None, message = None, success = None\<rparr>"

text \<open>
  An exception, by what the handlers of the program tell apart: \<^verbatim>\<open>FileNotFoundError\<close>
  or any other \<^verbatim>\<open>Exception\<close>; the argument is \<^verbatim>\<open>str(e)\<close>.
\<close>

datatype py_exception = FileNotFoundError py_str | OtherException py_str

fun str_exc :: "py_exception \<Rightarrow> py_str" where
  "str_exc (FileNotFoundError t) = t"
| "str_exc (OtherException t) = t"

text \<open>\<^verbatim>\<open>KeyError(k)\<close>: its \<^verbatim>\<open>str\<close> is the key in single quotes.\<close>

definition KeyError :: "string \<Rightarrow> py_exception" where
  "KeyError k = OtherException (of_str (CHR 0x27 # k @ [CHR 0x27]))"

subsection \<open>The services\<close>

text \<open>
  What the Google Maps client returns, with the keys the program reads by \<^verbatim>\<open>get\<close> (or by
  subscript, for a geocoding entry) optional.
\<close>

type_synonym latlng = "rat \<times> rat"

text \<open>
  A geocoding entry: \<open>None\<close> has no key \<^verbatim>\<open>'geometry'\<close>, \<open>Some None\<close> a geometry with no
  key \<^verbatim>\<open>'location'\<close>.
\<close>

type_synonym geocode_entry = "latlng option option"

record place =
  place_id :: "py_str option"

record places_result =
  results :: "place list option"

record place_details =
  pd_name :: "py_str option"
  pd_vicinity :: "py_str option"
  pd_formatted_phone_number :: "py_str option"
  pd_website :: "py_str option"
  pd_rating :: "rat option"

record place_response =
  result :: "place_details option"

type_synonym cell = "py_str option"

text \<open>
  Everything outside the program that it reads or writes: the two environment variables,
  the Google Maps client (each call returns or raises), the service-account key file, the
  spreadsheet service, the first worksheet as its list of rows, and the clock.
  \<open>gmaps_Client\<close> is the constructor \<^verbatim>\<open>googlemaps.Client(key=...)\<close>, \<open>Some e\<close> when it raises.
  \<open>authorize_open\<close> stands for \<^verbatim>\<open>gspread.authorize(creds)\<close> followed by
  \<^verbatim>\<open>client.open_by_key(spreadsheet_id).sheet1\<close>. The three faults say whether the call of
  that name on the worksheet raises.
\<close>

record world =
  GOOGLE_API_KEY :: "string option"
  GOOGLE_SHEET_ID :: "string option"
  gmaps_Client :: "string \<Rightarrow> py_exception option"
  gmaps_geocode :: "string \<Rightarrow> py_exception + geocode_entry list"
  gmaps_places_nearby :: "latlng \<Rightarrow> nat \<Rightarrow> string \<Rightarrow> py_exception + places_result"
  gmaps_place :: "py_str \<Rightarrow> string list \<Rightarrow> py_exception + place_response"
  from_json_keyfile_name :: "string \<Rightarrow> string list \<Rightarrow> py_exception option"
  authorize_open :: "string \<Rightarrow> py_exception option"
  sheet1 :: "cell list list"
  get_all_values_fault :: "py_exception option"
  append_row_fault :: "py_exception option"
  append_rows_fault :: "py_exception option"
  ctime :: py_str

text \<open>\<^verbatim>\<open>d.get(k, default)\<close>.\<close>

definition get_or :: "'a option \<Rightarrow> 'a \<Rightarrow> 'a" where
  "get_or v d = (case v of None \<Rightarrow> d | Some x \<Rightarrow> x)"

section \<open>The lookup tool\<close>

text \<open>
  The loop of \<^verbatim>\<open>find_recipients\<close> over the first five places, with its accumulator
  \<^verbatim>\<open>detailed_recipients\<close>: a place with no (or an empty) \<^verbatim>\<open>place_id\<close> is skipped, a
  call of \<^verbatim>\<open>gmaps.place\<close> that raises ends the loop with the exception (the handler of
  the function catches it). \<^verbatim>\<open>time.sleep\<close> has no effect on any value.
\<close>

definition details_fields :: "string list" where
  "details_fields = [''name'', ''vicinity'', ''formatted_phone_number'', ''website'', ''rating'']"

definition empty_details :: place_details where
  "empty_details = \<lparr>pd_name = None, pd_vicinity = None, pd_formatted_phone_number = None,
     pd_website = None, pd_rating = None\<rparr>"

definition make_recipient :: "place_details \<Rightarrow> organization" where
  "make_recipient d =
     \<lparr>org_name = get_or (pd_name d) (of_str ''N/A''),
      org_address = get_or (pd_vicinity d) (of_str ''N/A''),
      org_phone = get_or (pd_formatted_phone_number d) (of_str ''Not available''),
      org_website = get_or (pd_website d) (of_str ''Not available''),
      org_rating = (case pd_rating d of None \<Rightarrow> RatingNA | Some r \<Rightarrow> Rating r)\<rparr>"

fun detailed_loop ::
  "world \<Rightarrow> place list \<Rightarrow> organization list \<Rightarrow> py_exception + organization list" where
  "detailed_loop w [] detailed_recipients = Inr detailed_recipients"
| "detailed_loop w (p # ps) detailed_recipients =
     (case place_id p of
        None \<Rightarrow> detailed_loop w ps detailed_recipients
      | Some pid \<Rightarrow>
          if pid = [] then detailed_loop w ps detailed_recipients
          else (case gmaps_place w pid details_fields of
                  Inl e \<Rightarrow> Inl e
                | Inr details \<Rightarrow>
                    detailed_loop w ps
                      (detailed_recipients @
                         [make_recipient (get_or (result details) empty_details)])))"

definition search_keyword :: string where
  "search_keyword = ''food bank OR charity OR food donation''"

text \<open>The body of the \<^verbatim>\<open>try\<close> of \<^verbatim>\<open>find_recipients\<close>: the value returned, or the exception raised in it.\<close>

definition find_recipients_try :: "world \<Rightarrow> string \<Rightarrow> py_exception + tool_result" where
  "find_recipients_try w location =
     (case gmaps_geocode w location of
        Inl e \<Rightarrow> Inl e
      | Inr [] \<Rightarrow>
          Inr (no_keys\<lparr>error := Some (of_str (''Could not find coordinates for '' @ [CHR 0x27]
                                            @ location @ [CHR 0x27]))\<rparr>)
      | Inr (g # _) \<Rightarrow>
          (case g of
             None \<Rightarrow> Inl (KeyError ''geometry'')
           | Some None \<Rightarrow> Inl (KeyError ''location'')
           | Some (Some lat_lng) \<Rightarrow>
               (case gmaps_places_nearby w lat_lng 8000 search_keyword of
                  Inl e \<Rightarrow> Inl e
                | Inr places_result \<Rightarrow>
                    (case detailed_loop w (take 5 (get_or (results places_result) [])) [] of
                       Inl e \<Rightarrow> Inl e
                     | Inr detailed_recipients \<Rightarrow>
                         if detailed_recipients \<noteq> []
                         then Inr (no_keys\<lparr>recipients := Some detailed_recipients\<rparr>)
                         else Inr (no_keys\<lparr>message :=
                                Some (of_str ''No organizations found via Google Places API.'')\<rparr>)))))"

text \<open>
  \<^verbatim>\<open>find_recipients(location)\<close>: the JSON value it returns, or the exception it raises. The
  client is constructed before the \<^verbatim>\<open>try\<close>, so an exception of the constructor leaves the
  function; every exception inside the \<^verbatim>\<open>try\<close> becomes the \<^verbatim>\<open>api_error\<close> value.
\<close>

definition find_recipients :: "world \<Rightarrow> string \<Rightarrow> py_exception + tool_result" where
  "find_recipients w location =
     (case GOOGLE_API_KEY w of
        None \<Rightarrow> Inr (no_keys\<lparr>error := Some (of_str ''Google API key not found.'')\<rparr>)
      | Some api_key \<Rightarrow>
          if api_key = []
          then Inr (no_keys\<lparr>error := Some (of_str ''Google API key not found.'')\<rparr>)
          else (case gmaps_Client w api_key of
                  Some e \<Rightarrow> Inl e
                | None \<Rightarrow>
                    (case find_recipients_try w location of
                       Inr r \<Rightarrow> Inr r
                     | Inl e \<Rightarrow>
                         Inr (no_keys\<lparr>api_error := Some True, error := Some (str_exc e)\<rparr>))))"

section \<open>The ledger tool\<close>

definition sheet_scope :: "string list" where
  "sheet_scope = [''https://spreadsheets.google.com/feeds'', ''https://www.googleapis.com/auth/drive'']"

definition header_row :: "cell list" where
  "header_row = map (\<lambda>h. Some (of_str h))
     [''Donor Name'', ''Donor Phone'', ''NGO Name'', ''NGO Phone'', ''NGO Website'', ''Timestamp'']"

text \<open>
  The loop that builds \<^verbatim>\<open>rows_to_add\<close>, one row for each organization. The tool is
  invoked with what \<^verbatim>\<open>conversation_context.get\<close> returned, so a donor cell is \<open>None\<close> when
  the key was absent; the \<^verbatim>\<open>invoke\<close> of the tool wrapper is taken as the call of the
  function it wraps.
\<close>

fun rows_loop ::
  "cell \<Rightarrow> cell \<Rightarrow> py_str \<Rightarrow> organization list \<Rightarrow> cell list list \<Rightarrow> cell list list" where
  "rows_loop user_name user_phone timestamp [] rows_to_add = rows_to_add"
| "rows_loop user_name user_phone timestamp (org # organizations) rows_to_add =
     rows_loop user_name user_phone timestamp organizations
       (rows_to_add @
          [[user_name, user_phone, Some (org_name org), Some (org_phone org),
            Some (org_website org), Some timestamp]])"

text \<open>The row that \<open>rows_loop\<close> adds for one organization.\<close>

definition ledger_row :: "cell \<Rightarrow> cell \<Rightarrow> py_str \<Rightarrow> organization \<Rightarrow> cell list" where
  "ledger_row user_name user_phone timestamp org =
     [user_name, user_phone, Some (org_name org), Some (org_phone org),
      Some (org_website org), Some timestamp]"

text \<open>
  The body of the \<^verbatim>\<open>try\<close> of \<^verbatim>\<open>log_donation_request\<close>: the exception it raised, if any,
  and the world it leaves. A call on the worksheet that raises writes nothing; the header
  row written before a failing \<^verbatim>\<open>append_rows\<close> stays.
\<close>

definition log_try ::
  "world \<Rightarrow> string \<Rightarrow> cell \<Rightarrow> cell \<Rightarrow> organization list \<Rightarrow> py_exception option \<times> world" where
  "log_try w spreadsheet_id user_name user_phone organizations =
     (case from_json_keyfile_name w ''service_account.json'' sheet_scope of
        Some e \<Rightarrow> (Some e, w)
      | None \<Rightarrow>
          (case authorize_open w spreadsheet_id of
             Some e \<Rightarrow> (Some e, w)
           | None \<Rightarrow>
               (let rows_to_add = rows_loop user_name user_phone (ctime w) organizations []
                in case get_all_values_fault w of
                     Some e \<Rightarrow> (Some e, w)
                   | None \<Rightarrow>
                       (case (if sheet1 w = []
                              then (case append_row_fault w of
                                      Some e \<Rightarrow> Inl e
                                    | None \<Rightarrow> Inr (w\<lparr>sheet1 := sheet1 w @ [header_row]\<rparr>))
                              else Inr w) of
                          Inl e \<Rightarrow> (Some e, w)
                        | Inr w1 \<Rightarrow>
                            if rows_to_add \<noteq> []
                            then (case append_rows_fault w1 of
                                    Some e \<Rightarrow> (Some e, w1)
                                  | None \<Rightarrow> (None, w1\<lparr>sheet1 := sheet1 w1 @ rows_to_add\<rparr>))
                            else (None, w1)))))"

text \<open>
  \<^verbatim>\<open>log_donation_request(user_name, user_phone, organizations_json)\<close>: the JSON value it
  returns and the world it leaves. \<^verbatim>\<open>json.loads(json.dumps(orgs))\<close> is \<open>orgs\<close>, so the
  organizations are passed as they are. The test \<^verbatim>\<open>if not gspread\<close> is on the imported
  module, which is never false: the program exits at start-up when the import fails.
\<close>

definition log_donation_request ::
  "world \<Rightarrow> cell \<Rightarrow> cell \<Rightarrow> organization list \<Rightarrow> tool_result \<times> world" where
  "log_donation_request w user_name user_phone organizations =
     (case GOOGLE_SHEET_ID w of
        None \<Rightarrow>
          (no_keys\<lparr>error := Some (of_str ''GOOGLE_SHEET_ID environment variable not set.'')\<rparr>, w)
      | Some spreadsheet_id \<Rightarrow>
          if spreadsheet_id = []
          then (no_keys\<lparr>error :=
                  Some (of_str ''GOOGLE_SHEET_ID environment variable not set.'')\<rparr>, w)
          else (case log_try w spreadsheet_id user_name user_phone organizations of
                  (None, w') \<Rightarrow>
                    (no_keys\<lparr>success := Some True,
                       message := Some (of_str ''Request logged successfully in the Google Sheet.'')\<rparr>,
                     w')
                | (Some (FileNotFoundError t), w') \<Rightarrow>
                    (no_keys\<lparr>error := Some (of_str
                       ''service_account.json not found. Please ensure the file is in the correct directory.'')\<rparr>,
                     w')
                | (Some (OtherException t), w') \<Rightarrow>
                    (no_keys\<lparr>error := Some (of_str ''An error occurred while writing to the sheet: ''
                                         @ t)\<rparr>,
                     w')))"

section \<open>The chatbot\<close>

text \<open>
  \<^verbatim>\<open>conversation_context\<close> is a dictionary that only ever holds these five keys; \<open>None\<close>
  is an absent key, so the empty dictionary (after \<^verbatim>\<open>clear()\<close>, and at the start) has
  \<open>None\<close> everywhere.
\<close>

record context_dict =
  awaiting_user_name :: "bool option"
  awaiting_user_phone :: "bool option"
  awaiting_log_confirmation :: "bool option"
  user_name :: "string option"
  user_phone :: "string option"

definition empty_context :: context_dict where
  "empty_context = \<lparr>awaiting_user_name = None, awaiting_user_phone = None,
     awaiting_log_confirmation = None, user_name = None, user_phone = None\<rparr>"

record chatbot =
  conversation_context :: context_dict
  cached_organizations :: "organization list"

text \<open>\<^verbatim>\<open>FoodDonationChatbot.__init__\<close> (the agent executor is never used by the conversation).\<close>

definition init :: chatbot where
  "init = \<lparr>conversation_context = empty_context, cached_organizations = []\<rparr>"

text \<open>\<^verbatim>\<open>if d.get(k):\<close> on a flag: the key is present and true.\<close>

definition truthy :: "bool option \<Rightarrow> bool" where
  "truthy v = (v = Some True)"

fun format_loop :: "nat \<Rightarrow> organization list \<Rightarrow> py_str \<Rightarrow> py_str" where
  "format_loop i [] response = response"
| "format_loop i (org # orgs_data) response =
     format_loop (Suc i) orgs_data
       (response
        @ [0x1F3E2] @ of_str '' **'' @ str_nat i @ of_str ''. '' @ org_name org @ of_str ''**\<newline>''
        @ of_str ''   '' @ [0x1F4CD] @ of_str '' Address: '' @ org_address org @ of_str ''\<newline>''
        @ of_str ''   '' @ [0x1F4DE] @ of_str '' Phone: '' @ org_phone org @ of_str ''\<newline>''
        @ of_str ''   '' @ [0x1F310] @ of_str '' Website: '' @ org_website org @ of_str ''\<newline>'')"

definition format_organizations :: "organization list \<Rightarrow> py_str" where
  "format_organizations orgs_data =
     (if orgs_data = [] then of_str ''No organizations found.''
      else format_loop 1 orgs_data [])"

subsection \<open>The fixed answers\<close>

definition ask_phone_text :: py_str where
  "ask_phone_text = of_str ''Thank you. Now, what is your phone number?''"

definition ask_name_text :: py_str where
  "ask_name_text = of_str ''Great! To proceed, please provide your name.''"

definition decline_text :: py_str where
  "decline_text = of_str
     ''Okay, I will not log this request. Is there anything else I can help you with?''"

definition clarify_text :: py_str where
  "clarify_text = of_str
     (''I can help with that! Please tell me the city you are in, for example: ''
      @ [CHR 0x27] @ ''I want to donate in Delhi'' @ [CHR 0x27] @ ''.'')"

definition help_text :: py_str where
  "help_text = of_str
     (''I can help you find food donation centers. Please tell me what city you''
      @ [CHR 0x27] @ ''re in, like '' @ [CHR 0x27] @ ''Where can I donate food in Delhi?''
      @ [CHR 0x27])"

definition log_success_text :: "py_str \<Rightarrow> py_str" where
  "log_success_text m = [0x2705] @ of_str '' '' @ m"

definition log_error_text :: "py_str \<Rightarrow> py_str" where
  "log_error_text e = [0x274C] @ of_str '' Error: '' @ e"

definition found_text :: "string \<Rightarrow> organization list \<Rightarrow> py_str" where
  "found_text location orgs =
     [0x2705] @ of_str '' I found these organizations in '' @ of_str location
     @ of_str '':\<newline>\<newline>''
     @ format_organizations orgs
     @ of_str ''\<newline>\<newline>'' @ [0x1F4DD]
     @ of_str '' **Would you like me to log this request with these organizations for you? (yes/no)**''"

definition not_found_text :: "tool_result \<Rightarrow> py_str" where
  "not_found_text result_data =
     of_str (''I'' @ [CHR 0x27] @ ''m sorry, I couldn'' @ [CHR 0x27]
             @ ''t find any organizations. Error: '')
     @ get_or (error result_data) (of_str ''Unknown issue'')"

subsection \<open>The router\<close>

definition search_intent :: "string \<Rightarrow> bool" where
  "search_intent message_lower =
     (py_in ''find'' message_lower \<or> py_in ''donate'' message_lower
      \<or> py_in ''where can'' message_lower)"

text \<open>
  \<^verbatim>\<open>process_message(self, message)\<close> in a world: what it returns (\<open>Inr\<close>) or raises
  (\<open>Inl\<close>), the chatbot as it has left it, and the world as the ledger tool has left it.
  The branches are the source's, in its order. The \<^verbatim>\<open>print\<close> calls write to the terminal
  only.
\<close>

definition process_message ::
  "world \<Rightarrow> string \<Rightarrow> chatbot \<Rightarrow> (py_exception + py_str) \<times> chatbot \<times> world" where
  "process_message w msg self =
     (let message_lower = strip (lower msg);
          ctx = conversation_context self
      in if truthy (awaiting_user_name ctx) then
           (Inr ask_phone_text,
            self\<lparr>conversation_context :=
                   ctx\<lparr>user_name := Some msg, awaiting_user_name := Some False,
                       awaiting_user_phone := Some True\<rparr>\<rparr>,
            w)
         else if truthy (awaiting_user_phone ctx) then
           (let ctx1 = ctx\<lparr>user_phone := Some msg, awaiting_user_phone := Some False\<rparr>;
                (log_result, w') =
                   log_donation_request w (map_option of_str (user_name ctx1))
                     (map_option of_str (user_phone ctx1)) (cached_organizations self);
                self' = self\<lparr>conversation_context := empty_context\<rparr>
            in (if truthy (success log_result)
                then (case message log_result of
                        None \<Rightarrow> Inl (KeyError ''message'')
                      | Some m \<Rightarrow> Inr (log_success_text m))
                else (case error log_result of
                        None \<Rightarrow> Inl (KeyError ''error'')
                      | Some e \<Rightarrow> Inr (log_error_text e)),
                self', w'))
         else if truthy (awaiting_log_confirmation ctx) then
           (if message_lower = ''yes''
            then (Inr ask_name_text,
                  self\<lparr>conversation_context :=
                         ctx\<lparr>awaiting_log_confirmation := Some False,
                             awaiting_user_name := Some True\<rparr>\<rparr>,
                  w)
            else (Inr decline_text, self\<lparr>conversation_context := empty_context\<rparr>, w))
         else if search_intent message_lower then
           (let self1 = self\<lparr>cached_organizations := []\<rparr>
            in case location_match msg of
                 None \<Rightarrow> (Inr clarify_text, self1, w)
               | Some group1 \<Rightarrow>
                   (let location = strip group1
                    in case find_recipients w location of
                         Inl e \<Rightarrow> (Inl e, self1, w)
                       | Inr result_data \<Rightarrow>
                           (case recipients result_data of
                              Some (r # rs) \<Rightarrow>
                                (Inr (found_text location (r # rs)),
                                 self1\<lparr>cached_organizations := r # rs,
                                       conversation_context :=
                                         ctx\<lparr>awaiting_log_confirmation := Some True\<rparr>\<rparr>,
                                 w)
                            | _ \<Rightarrow> (Inr (not_found_text result_data), self1, w))))
         else (Inr help_text, self, w))"

text \<open>
  The pending step of a chatbot is the branch of \<^verbatim>\<open>process_message\<close> that its context
  selects, in the order the function tests the flags; \<open>NONE\<close> is the rest state that the
  specification calls \<open>IDLE\<close>.
\<close>

datatype pending_step = NONE | AWAITING_LOG_CONFIRMATION | AWAITING_NAME | AWAITING_PHONE

definition pendingStep :: "chatbot \<Rightarrow> pending_step" where
  "pendingStep self =
     (let ctx = conversation_context self
      in if truthy (awaiting_user_name ctx) then AWAITING_NAME
         else if truthy (awaiting_user_phone ctx) then AWAITING_PHONE
         else if truthy (awaiting_log_confirmation ctx) then AWAITING_LOG_CONFIRMATION
         else NONE)"

text \<open>The three components of what \<open>process_message\<close> yields.\<close>

definition answer :: "(py_exception + py_str) \<times> chatbot \<times> world \<Rightarrow> py_exception + py_str" where
  "answer t = fst t"

definition chatbot_after :: "(py_exception + py_str) \<times> chatbot \<times> world \<Rightarrow> chatbot" where
  "chatbot_after t = fst (snd t)"

definition world_after :: "(py_exception + py_str) \<times> chatbot \<times> world \<Rightarrow> world" where
  "world_after t = snd (snd t)"

text \<open>
  The chatbots a conversation can reach: from \<^verbatim>\<open>__init__\<close>, by any call of
  \<^verbatim>\<open>process_message\<close> in any world (as the call leaves the chatbot, whether it returns or
  raises), and by the handler of \<^verbatim>\<open>run_chat\<close>, which clears the context after an
  exception.
\<close>

inductive reachable :: "chatbot \<Rightarrow> bool" where
  start: "reachable init"
| routed: "reachable self \<Longrightarrow> reachable (chatbot_after (process_message w msg self))"
| handled: "reachable self \<Longrightarrow> reachable (self\<lparr>conversation_context := empty_context\<rparr>)"

code_pred reachable .

text \<open>The number of pending-step flags that are active in a context.\<close>

definition active_flags :: "context_dict \<Rightarrow> nat" where
  "active_flags ctx =
     (if truthy (awaiting_log_confirmation ctx) then 1 else 0)
     + (if truthy (awaiting_user_name ctx) then 1 else 0)
     + (if truthy (awaiting_user_phone ctx) then 1 else 0)"

text \<open>
  What holds of the context between two turns: at most one flag is active, no phone number
  is held (the logging branch clears the context in the turn that stores it), and the
  phone step is pending only when the name is held.
\<close>

definition context_ok :: "context_dict \<Rightarrow> bool" where
  "context_ok ctx =
     (active_flags ctx \<le> 1 \<and> user_phone ctx = None
      \<and> (truthy (awaiting_user_phone ctx) \<longrightarrow> user_name ctx \<noteq> None))"

subsection \<open>The response shapes of the interface description\<close>

text \<open>
  The shapes that the specification lists for the lookup client, by the keys present:
  \<^verbatim>\<open>{recipients: [...]}\<close> with at most five organizations, \<^verbatim>\<open>{error: string}\<close> and
  \<^verbatim>\<open>{api_error: true, error: string}\<close>; and the one it does not list,
  \<^verbatim>\<open>{message: string}\<close>.
\<close>

definition shape_recipients :: "tool_result \<Rightarrow> bool" where
  "shape_recipients r =
     (case recipients r of
        None \<Rightarrow> False
      | Some orgs \<Rightarrow>
          length orgs \<le> 5 \<and> error r = None \<and> api_error r = None \<and> message r = None
          \<and> success r = None)"

definition shape_error :: "tool_result \<Rightarrow> bool" where
  "shape_error r =
     (recipients r = None \<and> error r \<noteq> None \<and> api_error r = None \<and> message r = None
      \<and> success r = None)"

definition shape_api_error :: "tool_result \<Rightarrow> bool" where
  "shape_api_error r =
     (recipients r = None \<and> error r \<noteq> None \<and> api_error r = Some True \<and> message r = None
      \<and> success r = None)"

definition shape_message :: "tool_result \<Rightarrow> bool" where
  "shape_message r =
     (recipients r = None \<and> error r = None \<and> api_error r = None \<and> message r \<noteq> None
      \<and> success r = None)"

subsection \<open>Example worlds and chatbots\<close>

definition helping_hands :: place_details where
  "helping_hands =
     \<lparr>pd_name = Some (of_str ''Helping Hands''), pd_vicinity = Some (of_str ''12 Main Road''),
      pd_formatted_phone_number = Some (of_str ''011 5550 1000''), pd_website = None,
      pd_rating = None\<rparr>"

text \<open>
  A world in which every service answers: one geocoding entry, three places of which the
  second has no identifier, the same details for every place, an empty worksheet.
\<close>

definition good_world :: world where
  "good_world =
     \<lparr>GOOGLE_API_KEY = Some ''AIzaExample'', GOOGLE_SHEET_ID = Some ''sheet-1'',
      gmaps_Client = (\<lambda>key. None),
      gmaps_geocode = (\<lambda>location. Inr [Some (Some (0, 0))]),
      gmaps_places_nearby = (\<lambda>lat_lng radius keyword.
         Inr \<lparr>results = Some [\<lparr>place_id = Some (of_str ''p1'')\<rparr>, \<lparr>place_id = None\<rparr>,
                               \<lparr>place_id = Some (of_str ''p2'')\<rparr>]\<rparr>),
      gmaps_place = (\<lambda>pid fields. Inr \<lparr>result = Some helping_hands\<rparr>),
      from_json_keyfile_name = (\<lambda>file scope. None),
      authorize_open = (\<lambda>spreadsheet_id. None),
      sheet1 = [],
      get_all_values_fault = None, append_row_fault = None, append_rows_fault = None,
      ctime = of_str ''Wed Nov  4 07:25:00 2026''\<rparr>"

text \<open>The same world with no place near the location.\<close>

definition empty_town :: world where
  "empty_town =
     good_world\<lparr>gmaps_places_nearby := (\<lambda>lat_lng radius keyword. Inr \<lparr>results = Some []\<rparr>)\<rparr>"

text \<open>The same world with the key file of the service account missing.\<close>

definition no_keyfile :: world where
  "no_keyfile =
     good_world\<lparr>from_json_keyfile_name :=
       (\<lambda>file scope. Some (FileNotFoundError (of_str ''service_account.json'')))\<rparr>"

definition one_org :: organization where
  "one_org = make_recipient helping_hands"

text \<open>A chatbot that has found one organization and waits for the confirmation.\<close>

definition asked_to_confirm :: chatbot where
  "asked_to_confirm =
     \<lparr>conversation_context = empty_context\<lparr>awaiting_log_confirmation := Some True\<rparr>,
      cached_organizations = [one_org]\<rparr>"

text \<open>A chatbot that has the donor's name and waits for the phone number.\<close>

definition asked_for_phone :: chatbot where
  "asked_for_phone =
     \<lparr>conversation_context =
        empty_context\<lparr>awaiting_log_confirmation := Some False, awaiting_user_name := Some False,
          awaiting_user_phone := Some True, user_name := Some ''Asha''\<rparr>,
      cached_organizations = [one_org]\<rparr>"


text \<open>The same world with a key that the constructor of the client rejects.\<close>

definition rejected_key :: world where
  "rejected_key =
     good_world\<lparr>gmaps_Client := (\<lambda>key. Some (OtherException (of_str ''Invalid API key provided.'')))\<rparr>"

text \<open>A chatbot at rest that still holds the organization of an earlier search.\<close>

definition idle_with_cache :: chatbot where
  "idle_with_cache = \<lparr>conversation_context = empty_context, cached_organizations = [one_org]\<rparr>"

section \<open>The branches of the router\<close>

lemma pendingStep_name:
  "pendingStep self = AWAITING_NAME \<longleftrightarrow> truthy (awaiting_user_name (conversation_context self))"
  by (simp add: pendingStep_def Let_def)

lemma pendingStep_phone:
  "pendingStep self = AWAITING_PHONE \<longleftrightarrow>
     \<not> truthy (awaiting_user_name (conversation_context self))
     \<and> truthy (awaiting_user_phone (conversation_context self))"
  by (simp add: pendingStep_def Let_def)

lemma pendingStep_confirmation:
  "pendingStep self = AWAITING_LOG_CONFIRMATION \<longleftrightarrow>
     \<not> truthy (awaiting_user_name (conversation_context self))
     \<and> \<not> truthy (awaiting_user_phone (conversation_context self))
     \<and> truthy (awaiting_log_confirmation (conversation_context self))"
  by (simp add: pendingStep_def Let_def)

lemma pendingStep_none:
  "pendingStep self = NONE \<longleftrightarrow>
     \<not> truthy (awaiting_user_name (conversation_context self))
     \<and> \<not> truthy (awaiting_user_phone (conversation_context self))
     \<and> \<not> truthy (awaiting_log_confirmation (conversation_context self))"
  by (simp add: pendingStep_def Let_def)

lemma pendingStep_cleared [simp]:
  "pendingStep (self\<lparr>conversation_context := empty_context\<rparr>) = NONE"
  by (simp add: pendingStep_def empty_context_def truthy_def)

lemma pendingStep_cache [simp]:
  "pendingStep (self\<lparr>cached_organizations := orgs\<rparr>) = pendingStep self"
  by (simp add: pendingStep_def)

lemma name_branch:
  assumes "pendingStep self = AWAITING_NAME"
  shows "process_message w msg self =
           (Inr ask_phone_text,
            self\<lparr>conversation_context :=
                   (conversation_context self)\<lparr>user_name := Some msg,
                      awaiting_user_name := Some False, awaiting_user_phone := Some True\<rparr>\<rparr>,
            w)"
  using assms by (simp add: pendingStep_name process_message_def Let_def)

lemma confirmation_branch:
  assumes "pendingStep self = AWAITING_LOG_CONFIRMATION"
  shows "process_message w msg self =
           (if strip (lower msg) = ''yes''
            then (Inr ask_name_text,
                  self\<lparr>conversation_context :=
                         (conversation_context self)\<lparr>awaiting_log_confirmation := Some False,
                            awaiting_user_name := Some True\<rparr>\<rparr>,
                  w)
            else (Inr decline_text, self\<lparr>conversation_context := empty_context\<rparr>, w))"
  using assms by (simp add: pendingStep_confirmation process_message_def Let_def)

lemma help_branch:
  assumes "pendingStep self = NONE" and "\<not> search_intent (strip (lower msg))"
  shows "process_message w msg self = (Inr help_text, self, w)"
  using assms by (simp add: pendingStep_none process_message_def Let_def)

lemma search_branch:
  assumes "pendingStep self = NONE" and "search_intent (strip (lower msg))"
  shows "process_message w msg self =
           (case location_match msg of
              None \<Rightarrow> (Inr clarify_text, self\<lparr>cached_organizations := []\<rparr>, w)
            | Some group1 \<Rightarrow>
                (case find_recipients w (strip group1) of
                   Inl e \<Rightarrow> (Inl e, self\<lparr>cached_organizations := []\<rparr>, w)
                 | Inr result_data \<Rightarrow>
                     (case recipients result_data of
                        Some (r # rs) \<Rightarrow>
                          (Inr (found_text (strip group1) (r # rs)),
                           self\<lparr>cached_organizations := r # rs,
                                conversation_context :=
                                  (conversation_context self)\<lparr>awaiting_log_confirmation := Some True\<rparr>\<rparr>,
                           w)
                      | _ \<Rightarrow> (Inr (not_found_text result_data),
                              self\<lparr>cached_organizations := []\<rparr>, w))))"
  using assms
  by (simp add: pendingStep_none process_message_def Let_def
           split: option.splits sum.splits list.splits)

lemma log_result_keys:
  assumes "log_donation_request w n p orgs = (r, w')"
  shows "(success r = Some True \<and> (\<exists>m. message r = Some m))
         \<or> (success r = None \<and> (\<exists>e. error r = Some e))"
  using assms
  by (auto simp: log_donation_request_def no_keys_def
           split: option.splits if_splits prod.splits py_exception.splits)

lemma phone_branch:
  assumes "pendingStep self = AWAITING_PHONE"
  shows "process_message w msg self =
           (let (log_result, w') =
                  log_donation_request w
                    (map_option of_str (user_name (conversation_context self)))
                    (Some (of_str msg)) (cached_organizations self)
            in (if truthy (success log_result)
                then Inr (log_success_text (get_or (message log_result) []))
                else Inr (log_error_text (get_or (error log_result) [])),
                self\<lparr>conversation_context := empty_context\<rparr>, w'))"
proof -
  obtain r w' where lr:
    "log_donation_request w (map_option of_str (user_name (conversation_context self)))
       (Some (of_str msg)) (cached_organizations self) = (r, w')"
    by (cases "log_donation_request w
                 (map_option of_str (user_name (conversation_context self)))
                 (Some (of_str msg)) (cached_organizations self)")
  from log_result_keys [OF lr] show ?thesis
    using assms lr
    by (auto simp: pendingStep_phone process_message_def Let_def truthy_def get_or_def)
qed

subsection \<open>Keywords and locations\<close>

lemma starts_with_iff: "starts_with sub s \<longleftrightarrow> (\<exists>post. s = sub @ post)"
  by (induction sub s rule: starts_with.induct) auto

lemma py_in_iff: "py_in sub s \<longleftrightarrow> (\<exists>pre post. s = pre @ sub @ post)"
proof (induction s)
  case Nil
  then show ?case by auto
next
  case (Cons c s)
  show ?case
  proof
    assume "py_in sub (c # s)"
    then consider "starts_with sub (c # s)" | "py_in sub s" by auto
    then show "\<exists>pre post. c # s = pre @ sub @ post"
    proof cases
      case 1
      then obtain post where "c # s = sub @ post" by (auto simp: starts_with_iff)
      then have "c # s = [] @ sub @ post" by simp
      then show ?thesis by blast
    next
      case 2
      with Cons.IH obtain pre post where "s = pre @ sub @ post" by blast
      then have "c # s = (c # pre) @ sub @ post" by simp
      then show ?thesis by blast
    qed
  next
    assume "\<exists>pre post. c # s = pre @ sub @ post"
    then obtain pre post where split: "c # s = pre @ sub @ post" by blast
    show "py_in sub (c # s)"
    proof (cases pre)
      case Nil
      with split have "starts_with sub (c # s)" by (auto simp: starts_with_iff)
      then show ?thesis by simp
    next
      case (Cons p pre')
      with split have "s = pre' @ sub @ post" by simp
      with Cons.IH have "py_in sub s" by blast
      then show ?thesis by simp
    qed
  qed
qed

lemma location_match_None_iff:
  "location_match msg = None \<longleftrightarrow>
     (\<forall>pre a b c d s. msg = pre @ a # b # c # d # s \<longrightarrow>
        \<not> (is_i a \<and> is_n b \<and> isspace c \<and> d \<noteq> line_feed))"
proof (induction msg rule: location_match.induct)
  case (1 a b c d s)
  show ?case
  proof (cases "is_i a \<and> is_n b \<and> isspace c \<and> d \<noteq> line_feed")
    case True
    then have "a # b # c # d # s = [] @ a # b # c # d # s
               \<and> is_i a \<and> is_n b \<and> isspace c \<and> d \<noteq> line_feed" by simp
    then have "\<not> (\<forall>pre a' b' c' d' s'. a # b # c # d # s = pre @ a' # b' # c' # d' # s' \<longrightarrow>
        \<not> (is_i a' \<and> is_n b' \<and> isspace c' \<and> d' \<noteq> line_feed))" by blast
    with True show ?thesis by simp
  next
    case False
    then have step: "location_match (a # b # c # d # s) = location_match (b # c # d # s)"
      by auto
    have "(\<forall>pre a' b' c' d' s'. a # b # c # d # s = pre @ a' # b' # c' # d' # s' \<longrightarrow>
              \<not> (is_i a' \<and> is_n b' \<and> isspace c' \<and> d' \<noteq> line_feed))
          \<longleftrightarrow> (\<forall>pre a' b' c' d' s'. b # c # d # s = pre @ a' # b' # c' # d' # s' \<longrightarrow>
              \<not> (is_i a' \<and> is_n b' \<and> isspace c' \<and> d' \<noteq> line_feed))"
      (is "?L \<longleftrightarrow> ?R")
    proof
      assume l: ?L
      show ?R
      proof (intro allI impI)
        fix pre a' b' c' d' s'
        assume "b # c # d # s = pre @ a' # b' # c' # d' # s'"
        then have "a # b # c # d # s = (a # pre) @ a' # b' # c' # d' # s'" by simp
        with l show "\<not> (is_i a' \<and> is_n b' \<and> isspace c' \<and> d' \<noteq> line_feed)" by blast
      qed
    next
      assume r: ?R
      show ?L
      proof (intro allI impI)
        fix pre a' b' c' d' s'
        assume eq: "a # b # c # d # s = pre @ a' # b' # c' # d' # s'"
        show "\<not> (is_i a' \<and> is_n b' \<and> isspace c' \<and> d' \<noteq> line_feed)"
        proof (cases pre)
          case Nil
          with eq False show ?thesis by simp
        next
          case (Cons p pre')
          with eq have "b # c # d # s = pre' @ a' # b' # c' # d' # s'" by simp
          with r show ?thesis by blast
        qed
      qed
    qed
    then have same: "?R \<longleftrightarrow> ?L" by blast
    from "1.IH" [OF False] have "location_match (b # c # d # s) = None \<longleftrightarrow> ?R" .
    with same have "location_match (b # c # d # s) = None \<longleftrightarrow> ?L" by blast
    then show ?thesis by (simp only: step)
  qed
qed (auto simp: Cons_eq_append_conv)

lemma location_match_first:
  assumes "is_i a \<and> is_n b \<and> isspace c \<and> d \<noteq> line_feed"
    and "location_match (pre @ [a, b, c]) = None"
  shows "location_match (pre @ a # b # c # d # s)
           = Some (takeWhile (\<lambda>x. x \<noteq> line_feed) (d # s))"
  using assms(2)
proof (induction pre)
  case Nil
  with assms(1) show ?case by simp
next
  case (Cons p ps)
  obtain x y z t where front: "ps @ [a, b, c] = x # y # z # t"
    by (cases ps; cases "tl ps"; cases "tl (tl ps)") auto
  then have whole: "ps @ a # b # c # d # s = x # y # z # (t @ d # s)"
  proof -
    have "ps @ a # b # c # d # s = (ps @ [a, b, c]) @ d # s" by simp
    with front show ?thesis by simp
  qed
  from Cons.prems front
  have no_head: "\<not> (is_i p \<and> is_n x \<and> isspace y \<and> z \<noteq> line_feed)"
    and rest: "location_match (ps @ [a, b, c]) = None"
    by (auto split: if_splits)
  have "location_match ((p # ps) @ a # b # c # d # s)
          = location_match (p # x # y # z # (t @ d # s))"
    by (simp only: append_Cons whole)
  also have "\<dots> = location_match (x # y # z # (t @ d # s))"
    by (simp only: location_match.simps(1) no_head [THEN eq_False [THEN iffD2]] if_False)
  also have "\<dots> = location_match (ps @ a # b # c # d # s)"
    by (simp only: whole)
  finally show ?case
    by (simp only: Cons.IH [OF rest])
qed

lemma search_intent_iff:
  "search_intent m \<longleftrightarrow>
     (\<exists>pre post. m = pre @ ''find'' @ post) \<or> (\<exists>pre post. m = pre @ ''donate'' @ post)
     \<or> (\<exists>pre post. m = pre @ ''where can'' @ post)"
  by (simp only: search_intent_def py_in_iff)

section \<open>The lookup tool returns one of four shapes\<close>

lemma detailed_loop_length:
  "detailed_loop w ps acc = Inr rs \<Longrightarrow> length rs \<le> length acc + length ps"
proof (induction ps arbitrary: acc)
  case Nil
  then show ?case by simp
next
  case (Cons p ps)
  show ?case
  proof (cases "place_id p")
    case None
    with Cons.prems have "detailed_loop w ps acc = Inr rs" by simp
    from Cons.IH [OF this] show ?thesis by simp
  next
    case (Some pid)
    show ?thesis
    proof (cases "pid = []")
      case True
      with Some Cons.prems have "detailed_loop w ps acc = Inr rs" by simp
      from Cons.IH [OF this] show ?thesis by simp
    next
      case False
      show ?thesis
      proof (cases "gmaps_place w pid details_fields")
        case (Inl e)
        with Some False Cons.prems show ?thesis by simp
      next
        case (Inr details)
        with Some False Cons.prems have
          "detailed_loop w ps (acc @ [make_recipient (get_or (result details) empty_details)])
             = Inr rs"
          by simp
        from Cons.IH [OF this] show ?thesis by simp
      qed
    qed
  qed
qed

lemma find_recipients_try_shape:
  assumes "find_recipients_try w location = Inr r"
  shows "(\<exists>orgs. r = no_keys\<lparr>recipients := Some orgs\<rparr> \<and> orgs \<noteq> [] \<and> length orgs \<le> 5)
         \<or> (\<exists>e. r = no_keys\<lparr>error := Some e\<rparr>)
         \<or> (\<exists>m. r = no_keys\<lparr>message := Some m\<rparr>)"
proof -
  have five: "length rs \<le> 5" if "detailed_loop w (take 5 ps) [] = Inr rs" for ps rs
    using detailed_loop_length [OF that] by simp
  show ?thesis
    using assms five
    by (auto simp: find_recipients_try_def
             split: sum.splits list.splits option.splits if_splits)
qed

lemma find_recipients_shape:
  assumes "find_recipients w location = Inr r"
  shows "(\<exists>orgs. r = no_keys\<lparr>recipients := Some orgs\<rparr> \<and> orgs \<noteq> [] \<and> length orgs \<le> 5)
         \<or> (\<exists>e. r = no_keys\<lparr>error := Some e\<rparr>)
         \<or> (\<exists>e. r = no_keys\<lparr>api_error := Some True, error := Some e\<rparr>)
         \<or> (\<exists>m. r = no_keys\<lparr>message := Some m\<rparr>)"
  using assms find_recipients_try_shape [of w location r]
  by (auto simp: find_recipients_def split: sum.splits option.splits if_splits)


lemma find_recipients_raises_iff:
  "find_recipients w location = Inl e \<longleftrightarrow>
     (\<exists>api_key. GOOGLE_API_KEY w = Some api_key \<and> api_key \<noteq> []
        \<and> gmaps_Client w api_key = Some e)"
  by (auto simp: find_recipients_def split: option.splits sum.splits)

section \<open>The rows of the ledger tool\<close>

lemma rows_loop_map:
  "rows_loop n p ts orgs rows = rows @ map (ledger_row n p ts) orgs"
  by (induction orgs arbitrary: rows) (simp_all add: ledger_row_def)

lemma log_try_success:
  assumes "from_json_keyfile_name w ''service_account.json'' sheet_scope = None"
    and "authorize_open w sid = None"
    and "get_all_values_fault w = None"
    and "append_row_fault w = None"
    and "append_rows_fault w = None"
  shows "log_try w sid n p orgs
           = (None, w\<lparr>sheet1 := (if sheet1 w = [] then [header_row] else sheet1 w)
                                    @ map (ledger_row n p (ctime w)) orgs\<rparr>)"
  using assms by (simp add: log_try_def rows_loop_map Let_def)

lemma ledger_success:
  assumes "GOOGLE_SHEET_ID w = Some sid" and "sid \<noteq> []"
    and "from_json_keyfile_name w ''service_account.json'' sheet_scope = None"
    and "authorize_open w sid = None"
    and "get_all_values_fault w = None"
    and "append_row_fault w = None"
    and "append_rows_fault w = None"
  shows "log_donation_request w n p orgs
           = (no_keys\<lparr>success := Some True,
                message := Some (of_str ''Request logged successfully in the Google Sheet.'')\<rparr>,
              w\<lparr>sheet1 := (if sheet1 w = [] then [header_row] else sheet1 w)
                              @ map (ledger_row n p (ctime w)) orgs\<rparr>)"
  using assms by (simp add: log_donation_request_def log_try_success)

section \<open>What holds between two turns\<close>

lemma context_ok_empty: "context_ok empty_context"
  by (simp add: context_ok_def active_flags_def empty_context_def truthy_def)

lemma context_ok_routed:
  assumes "context_ok (conversation_context self)"
  shows "context_ok (conversation_context (chatbot_after (process_message w msg self)))"
proof (cases "pendingStep self")
  case NONE
  show ?thesis
  proof (cases "search_intent (strip (lower msg))")
    case False
    with NONE assms show ?thesis by (simp add: help_branch chatbot_after_def)
  next
    case True
    from NONE have "active_flags (conversation_context self) = 0"
      by (simp add: pendingStep_none active_flags_def)
    with NONE True assms show ?thesis
      by (auto simp: search_branch chatbot_after_def context_ok_def active_flags_def
            pendingStep_none truthy_def
            split: option.splits sum.splits list.splits)
  qed
next
  case AWAITING_LOG_CONFIRMATION
  with assms show ?thesis
    by (auto simp: confirmation_branch chatbot_after_def context_ok_def active_flags_def
          pendingStep_confirmation truthy_def empty_context_def)
next
  case AWAITING_NAME
  with assms show ?thesis
    by (auto simp: name_branch chatbot_after_def context_ok_def active_flags_def
          pendingStep_name truthy_def split: if_splits)
next
  case AWAITING_PHONE
  then show ?thesis
    by (simp add: phone_branch chatbot_after_def Let_def context_ok_empty split: prod.splits)
qed

lemma reachable_context_ok: "reachable self \<Longrightarrow> context_ok (conversation_context self)"
proof (induction rule: reachable.induct)
  case start
  show ?case by (simp add: init_def context_ok_empty)
next
  case (routed self w msg)
  then show ?case by (simp add: context_ok_routed)
next
  case (handled self)
  show ?case by (simp add: context_ok_empty)
qed

section \<open>Facts about the examples\<close>

lemma asked_to_confirm_step: "pendingStep asked_to_confirm = AWAITING_LOG_CONFIRMATION"
  by (simp add: pendingStep_confirmation asked_to_confirm_def empty_context_def truthy_def)

lemma asked_for_phone_step: "pendingStep asked_for_phone = AWAITING_PHONE"
  by (simp add: pendingStep_phone asked_for_phone_def empty_context_def truthy_def)

lemma init_step: "pendingStep init = NONE"
  by (simp add: pendingStep_none init_def empty_context_def truthy_def)

lemma idle_with_cache_step: "pendingStep idle_with_cache = NONE"
  by (simp add: pendingStep_none idle_with_cache_def empty_context_def truthy_def)

lemma asked_to_confirm_cache: "cached_organizations asked_to_confirm = [one_org]"
  by (simp add: asked_to_confirm_def)

lemma yes_upper: "strip (lower '' YES '') = ''yes''"
  by code_simp

lemma yes_capital: "strip (lower ''Yes'') = ''yes''"
  by code_simp

lemma no_is_not_yes: "strip (lower ''no'') \<noteq> ''yes''"
  by code_simp

lemma donate_in_delhi_is_not_yes: "strip (lower ''I want to donate in Delhi'') \<noteq> ''yes''"
  by code_simp

lemma donate_in_delhi_intent: "search_intent (strip (lower ''I want to donate in Delhi''))"
  by code_simp

lemma donate_in_delhi_location: "location_match ''I want to donate in Delhi'' = Some ''Delhi''"
  by code_simp

lemma strip_delhi: "strip ''Delhi'' = ''Delhi''"
  by code_simp

lemma donate_food_intent: "search_intent (strip (lower ''I want to DONATE food''))"
  by code_simp

lemma donate_food_location: "location_match ''I want to DONATE food'' = None"
  by code_simp

lemma hello_intent: "\<not> search_intent (strip (lower ''Hello there''))"
  by code_simp

lemma empty_town_lookup:
  "find_recipients empty_town ''Delhi''
     = Inr (no_keys\<lparr>message := Some (of_str ''No organizations found via Google Places API.'')\<rparr>)"
  by (simp add: find_recipients_def find_recipients_try_def empty_town_def good_world_def get_or_def)


lemma rejected_key_lookup:
  "find_recipients rejected_key ''Delhi''
     = Inl (OtherException (of_str ''Invalid API key provided.''))"
  by (simp add: find_recipients_def rejected_key_def good_world_def)

lemma good_world_lookup:
  "find_recipients good_world ''Delhi'' = Inr (no_keys\<lparr>recipients := Some [one_org, one_org]\<rparr>)"
  by (simp add: find_recipients_def find_recipients_try_def good_world_def get_or_def
        one_org_def details_fields_def of_str_def)

lemma good_world_ledger:
  "fst (log_donation_request good_world n p orgs)
     = no_keys\<lparr>success := Some True,
         message := Some (of_str ''Request logged successfully in the Google Sheet.'')\<rparr>"
  by (simp add: log_donation_request_def log_try_def good_world_def Let_def)

lemma no_keyfile_ledger:
  "fst (log_donation_request no_keyfile n p orgs)
     = no_keys\<lparr>error := Some (of_str
         ''service_account.json not found. Please ensure the file is in the correct directory.'')\<rparr>"
  by (simp add: log_donation_request_def log_try_def no_keyfile_def good_world_def)

lemma good_world_ledger_ready:
  "GOOGLE_SHEET_ID good_world = Some ''sheet-1'' \<and> ''sheet-1'' \<noteq> []
   \<and> from_json_keyfile_name good_world ''service_account.json'' sheet_scope = None
   \<and> authorize_open good_world ''sheet-1'' = None
   \<and> get_all_values_fault good_world = None
   \<and> append_row_fault good_world = None
   \<and> append_rows_fault good_world = None"
  by (simp add: good_world_def)

lemma good_world_sheet: "sheet1 good_world = []"
  by (simp add: good_world_def)

lemma found_two:
  "chatbot_after (process_message good_world ''I want to donate in Delhi'' init)
     = init\<lparr>cached_organizations := [one_org, one_org],
            conversation_context :=
              (conversation_context init)\<lparr>awaiting_log_confirmation := Some True\<rparr>\<rparr>"
proof -
  have "process_message good_world ''I want to donate in Delhi'' init
          = (Inr (found_text ''Delhi'' [one_org, one_org]),
             init\<lparr>cached_organizations := [one_org, one_org],
                  conversation_context :=
                    (conversation_context init)\<lparr>awaiting_log_confirmation := Some True\<rparr>\<rparr>,
             good_world)"
    by (simp only: search_branch [OF init_step donate_in_delhi_intent]
          donate_in_delhi_location option.case)
       (simp add: strip_delhi good_world_lookup no_keys_def)
  then show ?thesis
    by (simp only: chatbot_after_def fst_conv snd_conv)
qed

lemma after_name_step:
  "pendingStep
     (chatbot_after (process_message good_world ''Asha''
        (chatbot_after (process_message good_world ''Yes''
           (chatbot_after (process_message good_world ''I want to donate in Delhi'' init))))))
   = AWAITING_PHONE"
proof -
  define s1 where "s1 = init\<lparr>cached_organizations := [one_org, one_org],
            conversation_context :=
              (conversation_context init)\<lparr>awaiting_log_confirmation := Some True\<rparr>\<rparr>"
  have p1: "pendingStep s1 = AWAITING_LOG_CONFIRMATION"
    by (simp add: s1_def pendingStep_confirmation init_def empty_context_def truthy_def)
  define s2 where "s2 = chatbot_after (process_message good_world ''Yes'' s1)"
  have p2: "pendingStep s2 = AWAITING_NAME"
    by (simp add: s2_def confirmation_branch [OF p1] yes_capital chatbot_after_def
          pendingStep_name truthy_def)
  have "pendingStep (chatbot_after (process_message good_world ''Asha'' s2)) = AWAITING_PHONE"
    by (simp add: name_branch [OF p2] chatbot_after_def pendingStep_phone truthy_def)
  then show ?thesis
    by (simp only: found_two s2_def s1_def)
qed

section \<open>The confirmation step\<close>

text \<open>
  Claim C1, as amended. In every state whose pending step is \<open>AWAITING_LOG_CONFIRMATION\<close>,
  a message whose lowercased and trimmed form is \<open>yes\<close> makes the pending step
  \<open>AWAITING_NAME\<close>; any other message brings the state back to rest (\<open>NONE\<close>) with the
  conversation context discarded and the decline message returned, and leaves the
  organization cache as it was.
\<close>

theorem confirmation_answer:
  assumes "pendingStep self = AWAITING_LOG_CONFIRMATION"
  shows "(strip (lower msg) = ''yes'' \<longrightarrow>
            pendingStep (chatbot_after (process_message w msg self)) = AWAITING_NAME)
         \<and> (strip (lower msg) \<noteq> ''yes'' \<longrightarrow>
              pendingStep (chatbot_after (process_message w msg self)) = NONE
              \<and> conversation_context (chatbot_after (process_message w msg self)) = empty_context
              \<and> cached_organizations (chatbot_after (process_message w msg self))
                  = cached_organizations self
              \<and> answer (process_message w msg self) = Inr decline_text)"
  using assms
  by (simp add: confirmation_branch chatbot_after_def answer_def pendingStep_name truthy_def)

theorem confirmation_answer_witness:
  "pendingStep asked_to_confirm = AWAITING_LOG_CONFIRMATION
   \<and> strip (lower '' YES '') = ''yes''
   \<and> pendingStep (chatbot_after (process_message good_world '' YES '' asked_to_confirm))
       = AWAITING_NAME
   \<and> strip (lower ''no'') \<noteq> ''yes''
   \<and> pendingStep (chatbot_after (process_message good_world ''no'' asked_to_confirm)) = NONE
   \<and> answer (process_message good_world ''no'' asked_to_confirm) = Inr decline_text"
  using confirmation_answer [OF asked_to_confirm_step, of "'' YES ''" good_world]
    confirmation_answer [OF asked_to_confirm_step, of "''no''" good_world]
    asked_to_confirm_step yes_upper no_is_not_yes
  by simp

text \<open>
  The claim as it was stated also empties the cache on a declined confirmation. It does
  not: after \<open>no\<close> the cache still holds the organization it held.
\<close>

theorem decline_keeps_cache:
  "pendingStep asked_to_confirm = AWAITING_LOG_CONFIRMATION
   \<and> strip (lower ''no'') \<noteq> ''yes''
   \<and> cached_organizations (chatbot_after (process_message good_world ''no'' asked_to_confirm))
       \<noteq> []"
  using asked_to_confirm_step no_is_not_yes
  by (simp add: confirmation_branch chatbot_after_def asked_to_confirm_def)

section \<open>The whole flow\<close>

text \<open>
  Claim C2. From a chatbot that waits for the confirmation with a cache that is not
  empty, the messages \<open>yes\<close> (in any case, with any white space around), then a name,
  then a phone number lead to one call of the ledger tool, made in the third turn with
  that name, that phone number and the cached organizations. The tool builds one row for
  each cached organization, in the order of the cache, each with the same name and phone
  number; where the ledger is available these rows are what the worksheet gains (after
  the header row, on an empty sheet). The chatbot ends at rest.
\<close>

theorem full_flow_logs_each_organization:
  assumes "cached_organizations self \<noteq> []"
    and "pendingStep self = AWAITING_LOG_CONFIRMATION"
    and "strip (lower yes) = ''yes''"
  shows "(let s1 = chatbot_after (process_message w1 yes self);
              s2 = chatbot_after (process_message w2 donor s1);
              out = process_message w3 phone s2;
              orgs = cached_organizations self;
              rows = map (ledger_row (Some (of_str donor)) (Some (of_str phone)) (ctime w3)) orgs
          in world_after (process_message w1 yes self) = w1
             \<and> world_after (process_message w2 donor s1) = w2
             \<and> world_after out
                 = snd (log_donation_request w3 (Some (of_str donor)) (Some (of_str phone)) orgs)
             \<and> pendingStep (chatbot_after out) = NONE
             \<and> conversation_context (chatbot_after out) = empty_context
             \<and> rows_loop (Some (of_str donor)) (Some (of_str phone)) (ctime w3) orgs [] = rows
             \<and> length rows = length orgs
             \<and> (GOOGLE_SHEET_ID w3 = Some sid \<and> sid \<noteq> []
                 \<and> from_json_keyfile_name w3 ''service_account.json'' sheet_scope = None
                 \<and> authorize_open w3 sid = None
                 \<and> get_all_values_fault w3 = None
                 \<and> append_row_fault w3 = None
                 \<and> append_rows_fault w3 = None \<longrightarrow>
                 sheet1 (world_after out)
                   = (if sheet1 w3 = [] then [header_row] else sheet1 w3) @ rows))"
proof -
  let ?c1 = "(conversation_context self)\<lparr>awaiting_log_confirmation := Some False,
                awaiting_user_name := Some True\<rparr>"
  let ?s1 = "self\<lparr>conversation_context := ?c1\<rparr>"
  let ?c2 = "?c1\<lparr>user_name := Some donor, awaiting_user_name := Some False,
                awaiting_user_phone := Some True\<rparr>"
  let ?s2 = "?s1\<lparr>conversation_context := ?c2\<rparr>"
  have first: "process_message w1 yes self = (Inr ask_name_text, ?s1, w1)"
    using assms(2,3) by (simp add: confirmation_branch)
  have "pendingStep ?s1 = AWAITING_NAME"
    by (simp add: pendingStep_name truthy_def)
  then have second: "process_message w2 donor ?s1 = (Inr ask_phone_text, ?s2, w2)"
    by (simp add: name_branch)
  have third: "pendingStep ?s2 = AWAITING_PHONE"
    by (simp add: pendingStep_phone truthy_def)
  let ?out = "process_message w3 phone ?s2"
  let ?ledger = "log_donation_request w3 (Some (of_str donor)) (Some (of_str phone))
                   (cached_organizations self)"
  have name_held: "map_option of_str (user_name (conversation_context ?s2)) = Some (of_str donor)"
    by simp
  have cache_held: "cached_organizations ?s2 = cached_organizations self"
    by simp
  note last = phone_branch [OF third, of w3 phone, unfolded name_held cache_held]
  have s1: "chatbot_after (process_message w1 yes self) = ?s1"
    by (simp only: first chatbot_after_def fst_conv snd_conv)
  have s2: "chatbot_after (process_message w2 donor ?s1) = ?s2"
    by (simp only: second chatbot_after_def fst_conv snd_conv)
  have w1: "world_after (process_message w1 yes self) = w1"
    by (simp only: first world_after_def snd_conv)
  have w2: "world_after (process_message w2 donor ?s1) = w2"
    by (simp only: second world_after_def snd_conv)
  have w3: "world_after ?out = snd ?ledger"
    by (simp only: last world_after_def) (simp add: Let_def split: prod.splits)
  have after: "chatbot_after ?out = ?s2\<lparr>conversation_context := empty_context\<rparr>"
    by (simp only: last chatbot_after_def) (simp add: Let_def split: prod.splits)
  have rest: "pendingStep (chatbot_after ?out) = NONE"
    and cleared: "conversation_context (chatbot_after ?out) = empty_context"
    by (simp_all only: after pendingStep_cleared) simp
  have sheet: "sheet1 (snd ?ledger)
                 = (if sheet1 w3 = [] then [header_row] else sheet1 w3)
                   @ map (ledger_row (Some (of_str donor)) (Some (of_str phone)) (ctime w3))
                       (cached_organizations self)"
    if "GOOGLE_SHEET_ID w3 = Some sid \<and> sid \<noteq> []
        \<and> from_json_keyfile_name w3 ''service_account.json'' sheet_scope = None
        \<and> authorize_open w3 sid = None
        \<and> get_all_values_fault w3 = None
        \<and> append_row_fault w3 = None
        \<and> append_rows_fault w3 = None"
    using that by (simp add: ledger_success)
  show ?thesis
    unfolding Let_def s1 s2 w1 w2 w3 rest cleared
    using sheet by (simp add: rows_loop_map)
qed

theorem full_flow_logs_each_organization_witness:
  "cached_organizations asked_to_confirm \<noteq> []
   \<and> pendingStep asked_to_confirm = AWAITING_LOG_CONFIRMATION
   \<and> strip (lower ''Yes'') = ''yes''
   \<and> pendingStep
        (chatbot_after (process_message good_world ''555-0100''
           (chatbot_after (process_message good_world ''Asha''
              (chatbot_after (process_message good_world ''Yes'' asked_to_confirm)))))) = NONE
   \<and> sheet1
        (world_after (process_message good_world ''555-0100''
           (chatbot_after (process_message good_world ''Asha''
              (chatbot_after (process_message good_world ''Yes'' asked_to_confirm))))))
       = [header_row,
          ledger_row (Some (of_str ''Asha'')) (Some (of_str ''555-0100'')) (ctime good_world)
            one_org]"
proof -
  have cache: "cached_organizations asked_to_confirm \<noteq> []"
    by (simp add: asked_to_confirm_cache)
  note flow =
    full_flow_logs_each_organization [OF cache asked_to_confirm_step yes_capital,
      where ?w1.0 = good_world and ?w2.0 = good_world and ?w3.0 = good_world
        and donor = "''Asha''" and phone = "''555-0100''" and sid = "''sheet-1''",
      unfolded Let_def]
  from flow good_world_ledger_ready
  have "sheet1
        (world_after (process_message good_world ''555-0100''
           (chatbot_after (process_message good_world ''Asha''
              (chatbot_after (process_message good_world ''Yes'' asked_to_confirm))))))
       = (if sheet1 good_world = [] then [header_row] else sheet1 good_world)
         @ map (ledger_row (Some (of_str ''Asha'')) (Some (of_str ''555-0100'')) (ctime good_world))
             (cached_organizations asked_to_confirm)"
    by blast
  then have rows: "sheet1
        (world_after (process_message good_world ''555-0100''
           (chatbot_after (process_message good_world ''Asha''
              (chatbot_after (process_message good_world ''Yes'' asked_to_confirm))))))
       = [header_row,
          ledger_row (Some (of_str ''Asha'')) (Some (of_str ''555-0100'')) (ctime good_world)
            one_org]"
    by (simp add: good_world_sheet asked_to_confirm_cache)
  from flow have "pendingStep
        (chatbot_after (process_message good_world ''555-0100''
           (chatbot_after (process_message good_world ''Asha''
              (chatbot_after (process_message good_world ''Yes'' asked_to_confirm)))))) = NONE"
    by blast
  with rows cache asked_to_confirm_step yes_capital show ?thesis by blast
qed

section \<open>The logging step\<close>

text \<open>
  Claim C3. For every message routed while the phone step is pending, the ledger tool is
  called within the turn (the world after the turn is the world the tool has left), and
  the chatbot ends at rest with its context cleared whatever the tool returned: the
  chatbot after the turn is the same in every world. Only the answer differs, the
  success text with the tool's message or the error text with the tool's error.
\<close>

theorem phone_step_clears:
  assumes "pendingStep self = AWAITING_PHONE"
  shows "world_after (process_message w msg self)
           = snd (log_donation_request w
                    (map_option of_str (user_name (conversation_context self)))
                    (Some (of_str msg)) (cached_organizations self))
         \<and> chatbot_after (process_message w msg self)
             = self\<lparr>conversation_context := empty_context\<rparr>
         \<and> chatbot_after (process_message w2 msg self)
             = chatbot_after (process_message w msg self)
         \<and> pendingStep (chatbot_after (process_message w msg self)) = NONE
         \<and> (let log_result = fst (log_donation_request w
                    (map_option of_str (user_name (conversation_context self)))
                    (Some (of_str msg)) (cached_organizations self))
            in (success log_result = Some True
                \<and> (\<exists>m. message log_result = Some m
                         \<and> answer (process_message w msg self) = Inr (log_success_text m)))
               \<or> (success log_result = None
                   \<and> (\<exists>e. error log_result = Some e
                            \<and> answer (process_message w msg self) = Inr (log_error_text e))))"
proof -
  obtain r w' where lr:
    "log_donation_request w (map_option of_str (user_name (conversation_context self)))
       (Some (of_str msg)) (cached_organizations self) = (r, w')"
    by (cases "log_donation_request w
                 (map_option of_str (user_name (conversation_context self)))
                 (Some (of_str msg)) (cached_organizations self)")
  obtain r2 w2' where lr2:
    "log_donation_request w2 (map_option of_str (user_name (conversation_context self)))
       (Some (of_str msg)) (cached_organizations self) = (r2, w2')"
    by (cases "log_donation_request w2
                 (map_option of_str (user_name (conversation_context self)))
                 (Some (of_str msg)) (cached_organizations self)")
  from log_result_keys [OF lr] show ?thesis
    using lr lr2
    by (auto simp: phone_branch [OF assms] world_after_def chatbot_after_def answer_def
          truthy_def get_or_def)
qed

theorem phone_step_clears_witness:
  "pendingStep asked_for_phone = AWAITING_PHONE
   \<and> chatbot_after (process_message good_world ''555-0100'' asked_for_phone)
       = asked_for_phone\<lparr>conversation_context := empty_context\<rparr>
   \<and> chatbot_after (process_message no_keyfile ''555-0100'' asked_for_phone)
       = asked_for_phone\<lparr>conversation_context := empty_context\<rparr>
   \<and> pendingStep (chatbot_after (process_message no_keyfile ''555-0100'' asked_for_phone)) = NONE
   \<and> answer (process_message good_world ''555-0100'' asked_for_phone)
       = Inr (log_success_text (of_str ''Request logged successfully in the Google Sheet.''))
   \<and> answer (process_message no_keyfile ''555-0100'' asked_for_phone)
       = Inr (log_error_text (of_str
           ''service_account.json not found. Please ensure the file is in the correct directory.''))"
  using phone_step_clears [OF asked_for_phone_step, of good_world "''555-0100''" good_world]
    phone_step_clears [OF asked_for_phone_step, of no_keyfile "''555-0100''" no_keyfile]
    asked_for_phone_step
  by (simp add: good_world_ledger no_keyfile_ledger no_keys_def)

section \<open>A search that fails\<close>



section \<open>The order of the branches\<close>

text \<open>
  Claim C5, as amended. The router takes the first branch that applies. A pending step
  consumes the message as its answer, whatever the message contains: the name step
  stores it as the name, the phone step logs with it as the phone number, the
  confirmation step compares it with \<open>yes\<close>. With no pending step, a message whose
  lowercased and trimmed form contains \<open>find\<close>, \<open>donate\<close> or \<open>where can\<close> takes the
  search path. There a location is extracted at the first place of the message where
  \<open>in\<close> (in any case), one white-space character and a character other than the line
  feed follow each other: it is the text behind the white-space character up to the end
  of the line, and the lookup is called with it, trimmed. When the message has no such
  place the answer is the clarification prompt and the world is untouched. Any other
  message gets the help text, and chatbot and world are unchanged.
\<close>

theorem routing_order:
  "(pendingStep self = AWAITING_NAME \<longrightarrow>
      process_message w msg self
        = (Inr ask_phone_text,
           self\<lparr>conversation_context :=
                  (conversation_context self)\<lparr>user_name := Some msg,
                     awaiting_user_name := Some False, awaiting_user_phone := Some True\<rparr>\<rparr>,
           w))
   \<and> (pendingStep self = AWAITING_PHONE \<longrightarrow>
        world_after (process_message w msg self)
          = snd (log_donation_request w
                   (map_option of_str (user_name (conversation_context self)))
                   (Some (of_str msg)) (cached_organizations self))
        \<and> chatbot_after (process_message w msg self)
            = self\<lparr>conversation_context := empty_context\<rparr>)
   \<and> (pendingStep self = AWAITING_LOG_CONFIRMATION \<longrightarrow>
        process_message w msg self
          = (if strip (lower msg) = ''yes''
             then (Inr ask_name_text,
                   self\<lparr>conversation_context :=
                          (conversation_context self)\<lparr>awaiting_log_confirmation := Some False,
                             awaiting_user_name := Some True\<rparr>\<rparr>,
                   w)
             else (Inr decline_text, self\<lparr>conversation_context := empty_context\<rparr>, w)))
   \<and> (search_intent (strip (lower msg)) \<longleftrightarrow>
        (\<exists>pre post. strip (lower msg) = pre @ ''find'' @ post)
        \<or> (\<exists>pre post. strip (lower msg) = pre @ ''donate'' @ post)
        \<or> (\<exists>pre post. strip (lower msg) = pre @ ''where can'' @ post))
   \<and> (location_match msg = None \<longleftrightarrow>
        (\<forall>pre a b c d s. msg = pre @ a # b # c # d # s \<longrightarrow>
           \<not> (is_i a \<and> is_n b \<and> isspace c \<and> d \<noteq> line_feed)))
   \<and> (msg = before @ i # n # sp # d # s
        \<and> is_i i \<and> is_n n \<and> isspace sp \<and> d \<noteq> line_feed
        \<and> location_match (before @ [i, n, sp]) = None \<longrightarrow>
        location_match msg = Some (takeWhile (\<lambda>x. x \<noteq> line_feed) (d # s)))
   \<and> (pendingStep self = NONE \<and> search_intent (strip (lower msg))
        \<and> location_match msg = None \<longrightarrow>
        process_message w msg self
          = (Inr clarify_text, self\<lparr>cached_organizations := []\<rparr>, w))
   \<and> (pendingStep self = NONE \<and> search_intent (strip (lower msg))
        \<and> location_match msg = Some group1 \<longrightarrow>
        process_message w msg self
          = (case find_recipients w (strip group1) of
               Inl e \<Rightarrow> (Inl e, self\<lparr>cached_organizations := []\<rparr>, w)
             | Inr result_data \<Rightarrow>
                 (case recipients result_data of
                    Some (r # rs) \<Rightarrow>
                      (Inr (found_text (strip group1) (r # rs)),
                       self\<lparr>cached_organizations := r # rs,
                            conversation_context :=
                              (conversation_context self)\<lparr>awaiting_log_confirmation := Some True\<rparr>\<rparr>,
                       w)
                  | _ \<Rightarrow> (Inr (not_found_text result_data),
                          self\<lparr>cached_organizations := []\<rparr>, w))))
   \<and> (pendingStep self = NONE \<and> \<not> search_intent (strip (lower msg)) \<longrightarrow>
        process_message w msg self = (Inr help_text, self, w))"
proof -
  have name_step: "pendingStep self = AWAITING_NAME \<longrightarrow>
      process_message w msg self
        = (Inr ask_phone_text,
           self\<lparr>conversation_context :=
                  (conversation_context self)\<lparr>user_name := Some msg,
                     awaiting_user_name := Some False, awaiting_user_phone := Some True\<rparr>\<rparr>,
           w)"
    by (simp add: name_branch)
  have phone_step: "pendingStep self = AWAITING_PHONE \<longrightarrow>
        world_after (process_message w msg self)
          = snd (log_donation_request w
                   (map_option of_str (user_name (conversation_context self)))
                   (Some (of_str msg)) (cached_organizations self))
        \<and> chatbot_after (process_message w msg self)
            = self\<lparr>conversation_context := empty_context\<rparr>"
    by (simp add: phone_branch world_after_def chatbot_after_def Let_def split: prod.splits)
  have confirmation_step: "pendingStep self = AWAITING_LOG_CONFIRMATION \<longrightarrow>
        process_message w msg self
          = (if strip (lower msg) = ''yes''
             then (Inr ask_name_text,
                   self\<lparr>conversation_context :=
                          (conversation_context self)\<lparr>awaiting_log_confirmation := Some False,
                             awaiting_user_name := Some True\<rparr>\<rparr>,
                   w)
             else (Inr decline_text, self\<lparr>conversation_context := empty_context\<rparr>, w))"
    using confirmation_branch [of self w msg] by blast
  have first_place: "msg = before @ i # n # sp # d # s
        \<and> is_i i \<and> is_n n \<and> isspace sp \<and> d \<noteq> line_feed
        \<and> location_match (before @ [i, n, sp]) = None \<longrightarrow>
        location_match msg = Some (takeWhile (\<lambda>x. x \<noteq> line_feed) (d # s))"
    using location_match_first [of i n sp d before s] by blast
  have clarified: "pendingStep self = NONE \<and> search_intent (strip (lower msg))
        \<and> location_match msg = None \<longrightarrow>
        process_message w msg self
          = (Inr clarify_text, self\<lparr>cached_organizations := []\<rparr>, w)"
    by (simp add: search_branch)
  have looked_up: "pendingStep self = NONE \<and> search_intent (strip (lower msg))
        \<and> location_match msg = Some group1 \<longrightarrow>
        process_message w msg self
          = (case find_recipients w (strip group1) of
               Inl e \<Rightarrow> (Inl e, self\<lparr>cached_organizations := []\<rparr>, w)
             | Inr result_data \<Rightarrow>
                 (case recipients result_data of
                    Some (r # rs) \<Rightarrow>
                      (Inr (found_text (strip group1) (r # rs)),
                       self\<lparr>cached_organizations := r # rs,
                            conversation_context :=
                              (conversation_context self)\<lparr>awaiting_log_confirmation := Some True\<rparr>\<rparr>,
                       w)
                  | _ \<Rightarrow> (Inr (not_found_text result_data),
                          self\<lparr>cached_organizations := []\<rparr>, w)))"
    by (simp add: search_branch)
  have no_keyword: "pendingStep self = NONE \<and> \<not> search_intent (strip (lower msg)) \<longrightarrow>
        process_message w msg self = (Inr help_text, self, w)"
    by (simp add: help_branch)
  from name_step phone_step confirmation_step search_intent_iff [of "strip (lower msg)"]
    location_match_None_iff [of msg] first_place clarified looked_up no_keyword
  show ?thesis by (intro conjI)
qed

theorem routing_order_witness:
  "pendingStep asked_to_confirm = AWAITING_LOG_CONFIRMATION
   \<and> search_intent (strip (lower ''I want to donate in Delhi''))
   \<and> process_message good_world ''I want to donate in Delhi'' asked_to_confirm
       = (Inr decline_text, asked_to_confirm\<lparr>conversation_context := empty_context\<rparr>, good_world)
   \<and> pendingStep idle_with_cache = NONE
   \<and> location_match ''I want to DONATE food'' = None
   \<and> process_message good_world ''I want to DONATE food'' idle_with_cache
       = (Inr clarify_text, idle_with_cache\<lparr>cached_organizations := []\<rparr>, good_world)
   \<and> process_message good_world ''Hello there'' idle_with_cache
       = (Inr help_text, idle_with_cache, good_world)
   \<and> location_match ''I want to donate in '' = None
   \<and> location_match ''I want to donate in Delhi'' = Some ''Delhi''
   \<and> process_message good_world ''I want to donate in Delhi'' idle_with_cache
       = (Inr (found_text ''Delhi'' [one_org, one_org]),
          idle_with_cache\<lparr>cached_organizations := [one_org, one_org],
            conversation_context :=
              (conversation_context idle_with_cache)\<lparr>awaiting_log_confirmation := Some True\<rparr>\<rparr>,
          good_world)"
proof -
  from routing_order [where self = asked_to_confirm and w = good_world
      and msg = "''I want to donate in Delhi''"]
    asked_to_confirm_step
  have "process_message good_world ''I want to donate in Delhi'' asked_to_confirm
          = (if strip (lower ''I want to donate in Delhi'') = ''yes''
             then (Inr ask_name_text,
                   asked_to_confirm\<lparr>conversation_context :=
                          (conversation_context asked_to_confirm)\<lparr>awaiting_log_confirmation := Some False,
                             awaiting_user_name := Some True\<rparr>\<rparr>,
                   good_world)
             else (Inr decline_text, asked_to_confirm\<lparr>conversation_context := empty_context\<rparr>,
                   good_world))"
    by blast
  then have a: "process_message good_world ''I want to donate in Delhi'' asked_to_confirm
       = (Inr decline_text, asked_to_confirm\<lparr>conversation_context := empty_context\<rparr>, good_world)"
    by (simp only: donate_in_delhi_is_not_yes if_False)
  from routing_order [where self = idle_with_cache and w = good_world
      and msg = "''I want to DONATE food''"]
    idle_with_cache_step donate_food_intent donate_food_location
  have b: "process_message good_world ''I want to DONATE food'' idle_with_cache
       = (Inr clarify_text, idle_with_cache\<lparr>cached_organizations := []\<rparr>, good_world)"
    by blast
  from routing_order [where self = idle_with_cache and w = good_world and msg = "''Hello there''"]
    idle_with_cache_step hello_intent
  have c: "process_message good_world ''Hello there'' idle_with_cache
       = (Inr help_text, idle_with_cache, good_world)"
    by blast
  have split: "''I want to donate in Delhi''
                 = ''I want to donate '' @ CHR ''i'' # CHR ''n'' # CHR '' '' # CHR ''D'' # ''elhi''
               \<and> is_i CHR ''i'' \<and> is_n CHR ''n'' \<and> isspace CHR '' '' \<and> CHR ''D'' \<noteq> line_feed
               \<and> location_match (''I want to donate '' @ [CHR ''i'', CHR ''n'', CHR '' '']) = None"
    by code_simp
  have group: "takeWhile (\<lambda>x. x \<noteq> line_feed) (CHR ''D'' # ''elhi'') = ''Delhi''"
    by code_simp
  from routing_order [where msg = "''I want to donate in Delhi''"
      and before = "''I want to donate ''" and i = "CHR ''i''" and n = "CHR ''n''"
      and sp = "CHR '' ''" and d = "CHR ''D''" and s = "''elhi''"] split
  have "location_match ''I want to donate in Delhi''
          = Some (takeWhile (\<lambda>x. x \<noteq> line_feed) (CHR ''D'' # ''elhi''))"
    by blast
  then have d: "location_match ''I want to donate in Delhi'' = Some ''Delhi''"
    by (simp only: group)
  from routing_order [where self = idle_with_cache and w = good_world
      and msg = "''I want to donate in Delhi''" and ?group1.0 = "''Delhi''"]
    idle_with_cache_step donate_in_delhi_intent d
  have "process_message good_world ''I want to donate in Delhi'' idle_with_cache
          = (case find_recipients good_world (strip ''Delhi'') of
               Inl e \<Rightarrow> (Inl e, idle_with_cache\<lparr>cached_organizations := []\<rparr>, good_world)
             | Inr result_data \<Rightarrow>
                 (case recipients result_data of
                    Some (r # rs) \<Rightarrow>
                      (Inr (found_text (strip ''Delhi'') (r # rs)),
                       idle_with_cache\<lparr>cached_organizations := r # rs,
                            conversation_context :=
                              (conversation_context idle_with_cache)\<lparr>awaiting_log_confirmation := Some True\<rparr>\<rparr>,
                       good_world)
                  | _ \<Rightarrow> (Inr (not_found_text result_data),
                          idle_with_cache\<lparr>cached_organizations := []\<rparr>, good_world)))"
    by blast
  then have e: "process_message good_world ''I want to donate in Delhi'' idle_with_cache
       = (Inr (found_text ''Delhi'' [one_org, one_org]),
          idle_with_cache\<lparr>cached_organizations := [one_org, one_org],
            conversation_context :=
              (conversation_context idle_with_cache)\<lparr>awaiting_log_confirmation := Some True\<rparr>\<rparr>,
          good_world)"
    by (simp add: strip_delhi good_world_lookup no_keys_def)
  have f: "location_match ''I want to donate in '' = None"
    by code_simp
  from a b c d e f asked_to_confirm_step donate_in_delhi_intent idle_with_cache_step
    donate_food_location
  show ?thesis by blast
qed

text \<open>
  The claim as it was stated takes the marker to be \<open>in\<close> followed by a space. The
  pattern accepts any white-space character there: a message with a tab after \<open>in\<close>
  contains no \<open>in\<close> followed by a space, in any case, and yet the router calls the lookup
  with the text behind the tab and answers with what was found, not with the
  clarification prompt.
\<close>

theorem tab_after_in_is_looked_up:
  "pendingStep idle_with_cache = NONE
   \<and> search_intent (strip (lower (''donate in'' @ [CHR 0x09] @ ''Delhi'')))
   \<and> \<not> py_in ''in '' (lower (''donate in'' @ [CHR 0x09] @ ''Delhi''))
   \<and> process_message good_world (''donate in'' @ [CHR 0x09] @ ''Delhi'') idle_with_cache
       = (Inr (found_text ''Delhi'' [one_org, one_org]),
          idle_with_cache\<lparr>cached_organizations := [one_org, one_org],
            conversation_context :=
              (conversation_context idle_with_cache)\<lparr>awaiting_log_confirmation := Some True\<rparr>\<rparr>,
          good_world)
   \<and> found_text ''Delhi'' [one_org, one_org] \<noteq> clarify_text"
proof -
  have intent: "search_intent (strip (lower (''donate in'' @ [CHR 0x09] @ ''Delhi'')))"
    by code_simp
  have no_space: "\<not> py_in ''in '' (lower (''donate in'' @ [CHR 0x09] @ ''Delhi''))"
    by code_simp
  have location: "location_match (''donate in'' @ [CHR 0x09] @ ''Delhi'') = Some ''Delhi''"
    by code_simp
  have routed: "process_message good_world (''donate in'' @ [CHR 0x09] @ ''Delhi'') idle_with_cache
       = (Inr (found_text ''Delhi'' [one_org, one_org]),
          idle_with_cache\<lparr>cached_organizations := [one_org, one_org],
            conversation_context :=
              (conversation_context idle_with_cache)\<lparr>awaiting_log_confirmation := Some True\<rparr>\<rparr>,
          good_world)"
    by (simp only: search_branch [OF idle_with_cache_step intent] location option.case)
       (simp add: strip_delhi good_world_lookup no_keys_def)
  have other: "found_text ''Delhi'' [one_org, one_org] \<noteq> clarify_text"
    by (simp add: found_text_def clarify_text_def of_str_def)
  from idle_with_cache_step intent no_space routed other show ?thesis by blast
qed

section \<open>The invariant of the conversation\<close>

text \<open>
  Claim C6. In every chatbot that a conversation can reach, at most one of the three
  flags is active, a phone number is held only if a name is held, and the phone step
  (the one that stores the phone number) is pending only when the name is held.
\<close>

theorem one_pending_step_and_name_before_phone:
  assumes "reachable self"
  shows "active_flags (conversation_context self) \<le> 1
         \<and> (user_phone (conversation_context self) \<noteq> None \<longrightarrow>
              user_name (conversation_context self) \<noteq> None)
         \<and> (pendingStep self = AWAITING_PHONE \<longrightarrow>
              user_name (conversation_context self) \<noteq> None)"
  using reachable_context_ok [OF assms]
  by (simp add: context_ok_def pendingStep_phone)

theorem one_pending_step_and_name_before_phone_witness:
  "reachable
     (chatbot_after (process_message good_world ''Asha''
        (chatbot_after (process_message good_world ''Yes''
           (chatbot_after (process_message good_world ''I want to donate in Delhi'' init))))))
   \<and> pendingStep
     (chatbot_after (process_message good_world ''Asha''
        (chatbot_after (process_message good_world ''Yes''
           (chatbot_after (process_message good_world ''I want to donate in Delhi'' init))))))
       = AWAITING_PHONE
   \<and> active_flags (conversation_context
     (chatbot_after (process_message good_world ''Asha''
        (chatbot_after (process_message good_world ''Yes''
           (chatbot_after (process_message good_world ''I want to donate in Delhi'' init))))))) \<le> 1
   \<and> user_name (conversation_context
     (chatbot_after (process_message good_world ''Asha''
        (chatbot_after (process_message good_world ''Yes''
           (chatbot_after (process_message good_world ''I want to donate in Delhi'' init)))))))
       \<noteq> None"
proof -
  have r: "reachable
     (chatbot_after (process_message good_world ''Asha''
        (chatbot_after (process_message good_world ''Yes''
           (chatbot_after (process_message good_world ''I want to donate in Delhi'' init))))))"
    by (intro reachable.routed reachable.start)
  from one_pending_step_and_name_before_phone [OF r] after_name_step r
  show ?thesis by blast
qed

section \<open>The responses of the lookup tool\<close>

text \<open>
  Claim C7, as amended. Every invocation of the lookup tool that returns a response
  returns one of four shapes: the three of the interface description (a list of at most
  five recipients, an error, an API error with its text) or a lone \<^verbatim>\<open>message\<close>, which
  the tool returns when no organization was found. An invocation returns no response,
  and raises instead, exactly when the API key is set and the constructor of the client
  raises: the client is constructed before the \<^verbatim>\<open>try\<close>.
\<close>

theorem lookup_response_shapes:
  "(find_recipients w location = Inr r \<longrightarrow>
      shape_recipients r \<or> shape_error r \<or> shape_api_error r \<or> shape_message r)
   \<and> (find_recipients w location = Inl e \<longleftrightarrow>
        (\<exists>api_key. GOOGLE_API_KEY w = Some api_key \<and> api_key \<noteq> []
           \<and> gmaps_Client w api_key = Some e))"
proof -
  have "shape_recipients r \<or> shape_error r \<or> shape_api_error r \<or> shape_message r"
    if "find_recipients w location = Inr r"
    using find_recipients_shape [OF that]
    by (auto simp: shape_recipients_def shape_error_def shape_api_error_def shape_message_def
          no_keys_def)
  with find_recipients_raises_iff [of w location e] show ?thesis by blast
qed

theorem lookup_response_shapes_witness:
  "find_recipients good_world ''Delhi'' = Inr (no_keys\<lparr>recipients := Some [one_org, one_org]\<rparr>)
   \<and> shape_recipients (no_keys\<lparr>recipients := Some [one_org, one_org]\<rparr>)
   \<and> GOOGLE_API_KEY rejected_key = Some ''AIzaExample''
   \<and> gmaps_Client rejected_key ''AIzaExample''
       = Some (OtherException (of_str ''Invalid API key provided.''))
   \<and> find_recipients rejected_key ''Delhi''
       = Inl (OtherException (of_str ''Invalid API key provided.''))"
proof -
  let ?r = "no_keys\<lparr>recipients := Some [one_org, one_org]\<rparr>"
  let ?e = "OtherException (of_str ''Invalid API key provided.'')"
  have not_other: "\<not> shape_error ?r \<and> \<not> shape_api_error ?r \<and> \<not> shape_message ?r"
    by (simp add: shape_error_def shape_api_error_def shape_message_def no_keys_def)
  from lookup_response_shapes [where w = good_world and location = "''Delhi''" and r = ?r]
    good_world_lookup not_other
  have a: "shape_recipients ?r" by blast
  have key: "GOOGLE_API_KEY rejected_key = Some ''AIzaExample''
             \<and> ''AIzaExample'' \<noteq> []
             \<and> gmaps_Client rejected_key ''AIzaExample'' = Some ?e"
    by (simp add: rejected_key_def good_world_def)
  with lookup_response_shapes [where w = rejected_key and location = "''Delhi''" and e = ?e]
  have b: "find_recipients rejected_key ''Delhi'' = Inl ?e" by blast
  from a b key good_world_lookup show ?thesis by blast
qed

text \<open>
  The claim as it was stated allows three shapes only, for every invocation. Where the
  geocoder answers and no place is found near the location, the response is
  \<^verbatim>\<open>{"message": ...}\<close>, which is none of the three; and where the constructor of the client
  raises, the invocation has no response at all.
\<close>

theorem lookup_message_shape:
  "find_recipients empty_town ''Delhi''
     = Inr (no_keys\<lparr>message := Some (of_str ''No organizations found via Google Places API.'')\<rparr>)
   \<and> \<not> (shape_recipients
            (no_keys\<lparr>message := Some (of_str ''No organizations found via Google Places API.'')\<rparr>)
          \<or> shape_error
            (no_keys\<lparr>message := Some (of_str ''No organizations found via Google Places API.'')\<rparr>)
          \<or> shape_api_error
            (no_keys\<lparr>message := Some (of_str ''No organizations found via Google Places API.'')\<rparr>))
   \<and> find_recipients rejected_key ''Delhi''
       = Inl (OtherException (of_str ''Invalid API key provided.''))"
  using empty_town_lookup rejected_key_lookup
  by (simp add: shape_recipients_def shape_error_def shape_api_error_def no_keys_def)

section \<open>Routing twice at rest\<close>

text \<open>
  Claim C8. At rest, a message that triggers neither a lookup nor a log (no search
  keyword, or a keyword but no location) gets the same answer when it is routed a second
  time, in whatever world, and neither turn changes the world.
\<close>

theorem idle_idempotent:
  assumes "pendingStep self = NONE"
    and "\<not> search_intent (strip (lower msg)) \<or> location_match msg = None"
  shows "answer (process_message w2 msg (chatbot_after (process_message w msg self)))
           = answer (process_message w msg self)
         \<and> world_after (process_message w msg self) = w
         \<and> world_after (process_message w2 msg (chatbot_after (process_message w msg self))) = w2"
proof (cases "search_intent (strip (lower msg))")
  case False
  with assms(1) show ?thesis
    by (simp add: help_branch chatbot_after_def answer_def world_after_def)
next
  case True
  with assms(2) have no_location: "location_match msg = None" by simp
  have first: "process_message w msg self
                 = (Inr clarify_text, self\<lparr>cached_organizations := []\<rparr>, w)"
    using assms(1) True no_location by (simp add: search_branch)
  have "pendingStep (self\<lparr>cached_organizations := []\<rparr>) = NONE"
    using assms(1) by simp
  then have "process_message w2 msg (self\<lparr>cached_organizations := []\<rparr>)
               = (Inr clarify_text, self\<lparr>cached_organizations := []\<rparr>, w2)"
    using True no_location by (simp add: search_branch)
  with first show ?thesis
    by (simp add: chatbot_after_def answer_def world_after_def)
qed

theorem idle_idempotent_witness:
  "pendingStep idle_with_cache = NONE
   \<and> location_match ''I want to DONATE food'' = None
   \<and> answer (process_message empty_town ''I want to DONATE food''
               (chatbot_after (process_message good_world ''I want to DONATE food'' idle_with_cache)))
       = answer (process_message good_world ''I want to DONATE food'' idle_with_cache)"
proof -
  have pre: "\<not> search_intent (strip (lower ''I want to DONATE food''))
             \<or> location_match ''I want to DONATE food'' = None"
    using donate_food_location by (rule disjI2)
  from idle_idempotent [OF idle_with_cache_step pre, where ?w2.0 = empty_town and w = good_world]
    idle_with_cache_step donate_food_location
  show ?thesis by blast
qed

section \<open>The ledger tool on no organization\<close>

text \<open>
  Claim C9. Called with an empty list of organizations, the ledger tool builds no row; in
  every world the worksheet is left as it was or gets the header row only. When the sheet
  identifier is set, the key file loads, the sheet opens and its calls do not raise, the
  tool reports success.
\<close>

theorem empty_request_succeeds:
  "rows_loop n p (ctime w) [] [] = []
   \<and> (sheet1 (snd (log_donation_request w n p [])) = sheet1 w
       \<or> sheet1 (snd (log_donation_request w n p [])) = sheet1 w @ [header_row])
   \<and> (GOOGLE_SHEET_ID w = Some sid \<and> sid \<noteq> []
       \<and> from_json_keyfile_name w ''service_account.json'' sheet_scope = None
       \<and> authorize_open w sid = None
       \<and> get_all_values_fault w = None
       \<and> (sheet1 w = [] \<longrightarrow> append_row_fault w = None) \<longrightarrow>
       fst (log_donation_request w n p [])
         = no_keys\<lparr>success := Some True,
             message := Some (of_str ''Request logged successfully in the Google Sheet.'')\<rparr>
       \<and> sheet1 (snd (log_donation_request w n p []))
           = (if sheet1 w = [] then [header_row] else sheet1 w))"
  by (auto simp: log_donation_request_def log_try_def Let_def
        split: option.splits py_exception.splits)

theorem empty_request_succeeds_witness:
  "fst (log_donation_request good_world (Some (of_str ''Asha'')) (Some (of_str ''555-0100'')) [])
     = no_keys\<lparr>success := Some True,
         message := Some (of_str ''Request logged successfully in the Google Sheet.'')\<rparr>
   \<and> sheet1 (snd (log_donation_request good_world (Some (of_str ''Asha''))
                    (Some (of_str ''555-0100'')) []))
       = [header_row]"
proof -
  have pre: "GOOGLE_SHEET_ID good_world = Some ''sheet-1'' \<and> ''sheet-1'' \<noteq> []
       \<and> from_json_keyfile_name good_world ''service_account.json'' sheet_scope = None
       \<and> authorize_open good_world ''sheet-1'' = None
       \<and> get_all_values_fault good_world = None
       \<and> (sheet1 good_world = [] \<longrightarrow> append_row_fault good_world = None)"
    by (simp add: good_world_def)
  from empty_request_succeeds [where w = good_world and sid = "''sheet-1''"
      and n = "Some (of_str ''Asha'')" and p = "Some (of_str ''555-0100'')"] pre
  have "fst (log_donation_request good_world (Some (of_str ''Asha'')) (Some (of_str ''555-0100'')) [])
     = no_keys\<lparr>success := Some True,
         message := Some (of_str ''Request logged successfully in the Google Sheet.'')\<rparr>
   \<and> sheet1 (snd (log_donation_request good_world (Some (of_str ''Asha''))
                    (Some (of_str ''555-0100'')) []))
       = (if sheet1 good_world = [] then [header_row] else sheet1 good_world)"
    by blast
  then show ?thesis
    by (simp add: good_world_sheet)
qed

section \<open>The frame of the organization cache\<close>

text \<open>
  Claim C10. The cache is assigned only in the search branch: when a step is pending
  (confirmation, name, phone and logging) or the message has no search keyword (the help
  answer), the cache after the turn is the cache before it. In particular it still holds
  the organizations of the last search after a log that succeeded or failed.
\<close>

theorem cache_frame:
  assumes "pendingStep self \<noteq> NONE \<or> \<not> search_intent (strip (lower msg))"
  shows "cached_organizations (chatbot_after (process_message w msg self))
           = cached_organizations self
         \<and> (pendingStep self = AWAITING_PHONE \<longrightarrow>
              conversation_context (chatbot_after (process_message w msg self)) = empty_context)"
proof (cases "pendingStep self")
  case NONE
  with assms have "\<not> search_intent (strip (lower msg))" by simp
  with NONE show ?thesis by (simp add: help_branch chatbot_after_def)
next
  case AWAITING_LOG_CONFIRMATION
  then show ?thesis by (simp add: confirmation_branch chatbot_after_def)
next
  case AWAITING_NAME
  then show ?thesis by (simp add: name_branch chatbot_after_def)
next
  case AWAITING_PHONE
  then show ?thesis
    by (simp add: phone_branch chatbot_after_def Let_def split: prod.splits)
qed

theorem cache_frame_witness:
  "pendingStep asked_for_phone \<noteq> NONE
   \<and> cached_organizations (chatbot_after (process_message good_world ''555-0100'' asked_for_phone))
       = cached_organizations asked_for_phone
   \<and> cached_organizations (chatbot_after (process_message no_keyfile ''555-0100'' asked_for_phone))
       = cached_organizations asked_for_phone
   \<and> cached_organizations asked_for_phone = [one_org]"
proof -
  have active: "pendingStep asked_for_phone \<noteq> NONE"
    by (simp add: asked_for_phone_step)
  then have pre: "pendingStep asked_for_phone \<noteq> NONE \<or> \<not> search_intent (strip (lower ''555-0100''))"
    by (rule disjI1)
  have "cached_organizations asked_for_phone = [one_org]"
    by (simp add: asked_for_phone_def)
  with active cache_frame [OF pre, of good_world] cache_frame [OF pre, of no_keyfile]
  show ?thesis by blast
qed

end
